theory Spec2Isabelle
  imports Main "HOL-Library.Multiset"
begin

section \<open>The memory game of \<^verbatim>\<open>src/components/memory-game.tsx\<close>\<close>

text \<open>
  The component keeps four pieces of React state (\<^verbatim>\<open>gameState\<close>, \<^verbatim>\<open>cards\<close>,
  \<^verbatim>\<open>matches\<close>, \<^verbatim>\<open>isChecking\<close>), mirrors them into \<^verbatim>\<open>sessionStorage\<close>, and
  resolves a pair of face-up cards in a \<^verbatim>\<open>setTimeout\<close> callback. The model threads one
  record through every handler: the React state, the session storage, the callbacks that
  \<^verbatim>\<open>setTimeout\<close> holds and the lines written by \<^verbatim>\<open>console.error\<close>. The component
  runs in a browser: \<^verbatim>\<open>window\<close> is defined, and \<^verbatim>\<open>getItem\<close>, \<^verbatim>\<open>setItem\<close> and
  \<^verbatim>\<open>removeItem\<close> do not throw. Markup and styles are left out.
\<close>

subsection \<open>Data\<close>

text \<open>The six icons imported from \<^verbatim>\<open>lucide-react\<close> that the component uses on cards.\<close>

datatype LucideIcon = Heart | Star | Sun | Moon | Cloud | Flower2

text \<open>
  \<^verbatim>\<open>type MemoryCard = { id: number, icon: LucideIcon, isMatched: boolean, isFlipped: boolean,
  color: string }\<close>. Card ids are integers; the field is called \<open>id'\<close> because \<open>id\<close> is
  the identity function of HOL.
\<close>

record MemoryCard =
  id' :: int
  icon :: LucideIcon
  isMatched :: bool
  isFlipped :: bool
  color :: string

text \<open>\<^verbatim>\<open>const CARD_CONFIGS = [ { icon: Heart, color: "text-rose-500" }, ... ]\<close>\<close>

definition CARD_CONFIGS :: "(LucideIcon \<times> string) list" where
  "CARD_CONFIGS =
     [(Heart, ''text-rose-500''), (Star, ''text-amber-500''), (Sun, ''text-yellow-500''),
      (Moon, ''text-purple-500''), (Cloud, ''text-sky-500''), (Flower2, ''text-emerald-500'')]"

subsection \<open>\<^verbatim>\<open>createCards\<close>\<close>

text \<open>
  The \<^verbatim>\<open>forEach\<close> loop of \<^verbatim>\<open>createCards\<close>: for the configuration at position
  \<open>index\<close> it pushes the cards \<open>index * 2\<close> and \<open>index * 2 + 1\<close>, both face down and
  unmatched, onto the end of \<open>cards\<close>.
\<close>

fun forEach_push :: "(LucideIcon \<times> string) list \<Rightarrow> int \<Rightarrow> MemoryCard list \<Rightarrow> MemoryCard list" where
  "forEach_push [] index cards = cards"
| "forEach_push ((icn, col) # rest) index cards =
     forEach_push rest (index + 1)
       (cards @
         [\<lparr>id' = index * 2, icon = icn, isMatched = False, isFlipped = False, color = col\<rparr>,
          \<lparr>id' = index * 2 + 1, icon = icn, isMatched = False, isFlipped = False, color = col\<rparr>])"

text \<open>
  \<^verbatim>\<open>return cards.sort(() => Math.random() - 0.5)\<close>. The comparator ignores its arguments
  and answers at random, so the order of the result depends on the random source and on the
  sorting algorithm of the JavaScript engine. The model takes the outcome of that call as the
  parameter \<open>sort_random\<close>; what \<^verbatim>\<open>Array.prototype.sort\<close> guarantees for any comparator
  is that the result holds the same elements, which theorems about \<open>createCards\<close> assume of
  \<open>sort_random\<close> where they need it.
\<close>

definition createCards :: "(MemoryCard list \<Rightarrow> MemoryCard list) \<Rightarrow> MemoryCard list" where
  "createCards sort_random = sort_random (forEach_push CARD_CONFIGS 0 [])"

text \<open>
  The pair key of a card, \<^verbatim>\<open>Math.floor(card.id / 2)\<close>. On integers the division of
  HOL rounds towards minus infinity, as \<^verbatim>\<open>Math.floor\<close> does.
\<close>

definition pairKey :: "MemoryCard \<Rightarrow> int" where
  "pairKey c = id' c div 2"

subsection \<open>Numbers and their text form\<close>

text \<open>
  \<^verbatim>\<open>matches\<close> is a JavaScript number. The values it takes are integers, and
  \<^verbatim>\<open>NaN\<close> when \<^verbatim>\<open>parseInt\<close> finds no digits in the stored text. Integers are
  unbounded here; the component never counts beyond the exact range of a double.
\<close>

datatype number = Num int | NaN

fun plus_number :: "number \<Rightarrow> number \<Rightarrow> number" where
  "plus_number (Num a) (Num b) = Num (a + b)"
| "plus_number _ _ = NaN"

fun times_number :: "number \<Rightarrow> number \<Rightarrow> number" where
  "times_number (Num a) (Num b) = Num (a * b)"
| "times_number _ _ = NaN"

text \<open>\<^verbatim>\<open>===\<close> on numbers: \<^verbatim>\<open>NaN\<close> is equal to nothing, itself included.\<close>

fun strict_equal :: "number \<Rightarrow> number \<Rightarrow> bool" where
  "strict_equal (Num a) (Num b) = (a = b)"
| "strict_equal _ _ = False"

text \<open>The decimal digits of a natural number, most significant first.\<close>

definition digitChar :: "nat \<Rightarrow> char" where
  "digitChar d = ''0123456789'' ! d"

definition isDecimal :: "char \<Rightarrow> bool" where
  "isDecimal c = (\<exists>d<10. c = digitChar d)"

fun digits :: "nat \<Rightarrow> string" where
  "digits n = (if n < 10 then [digitChar n] else digits (n div 10) @ [digitChar (n mod 10)])"

declare digits.simps [simp del]

text \<open>\<^verbatim>\<open>Number.prototype.toString()\<close> on the values above.\<close>

fun toString :: "number \<Rightarrow> string" where
  "toString NaN = ''NaN''"
| "toString (Num n) = (if n < 0 then CHR ''-'' # digits (nat (- n)) else digits (nat n))"

text \<open>
  \<^verbatim>\<open>parseInt(string)\<close> with no radix, after ECMAScript: leading white space is
  dropped, one sign is read, a prefix \<^verbatim>\<open>0x\<close> or \<^verbatim>\<open>0X\<close> selects radix 16 (radix 10
  otherwise), the longest run of digits of that radix is the number, and there being none
  gives \<^verbatim>\<open>NaN\<close>. Whatever follows the digits is ignored. White space is the
  characters with codes 9 to 13, 32 and 160; the digits are \<^verbatim>\<open>0\<close> to \<^verbatim>\<open>9\<close> and the
  letters, in either case, with values from 10.
\<close>

definition isWhiteSpace :: "char \<Rightarrow> bool" where
  "isWhiteSpace c = (of_char c \<in> {9, 10, 11, 12, 13, 32, 160 :: nat})"

definition digitValue :: "char \<Rightarrow> nat option" where
  "digitValue c =
     (let n = of_char c :: nat
      in if 48 \<le> n \<and> n \<le> 57 then Some (n - 48)
         else if 97 \<le> n \<and> n \<le> 122 then Some (n - 87)
         else if 65 \<le> n \<and> n \<le> 90 then Some (n - 55)
         else None)"

definition isRadixDigit :: "nat \<Rightarrow> char \<Rightarrow> bool" where
  "isRadixDigit R c = (case digitValue c of None \<Rightarrow> False | Some d \<Rightarrow> d < R)"

fun mathInt :: "nat \<Rightarrow> nat \<Rightarrow> string \<Rightarrow> nat" where
  "mathInt R acc [] = acc"
| "mathInt R acc (c # cs) =
     mathInt R (acc * R + (case digitValue c of None \<Rightarrow> 0 | Some d \<Rightarrow> d)) cs"

definition parseInt :: "string \<Rightarrow> number" where
  "parseInt inputString =
     (let S = dropWhile isWhiteSpace inputString;
          sign = (if take 1 S = ''-'' then - 1 else 1 :: int);
          S1 = (if take 1 S = ''+'' \<or> take 1 S = ''-'' then drop 1 S else S);
          hex = (take 2 S1 = ''0x'' \<or> take 2 S1 = ''0X'');
          R = (if hex then 16 else 10);
          S2 = (if hex then drop 2 S1 else S1);
          Z = takeWhile (isRadixDigit R) S2
      in if Z = [] then NaN else Num (sign * int (mathInt R 0 Z)))"

subsection \<open>Session storage\<close>

text \<open>
  What \<^verbatim>\<open>JSON.stringify(serializableCards)\<close> writes for one card: the card without its
  \<^verbatim>\<open>icon\<close> (\<^verbatim>\<open>undefined\<close> properties are left out of the text) and with
  \<^verbatim>\<open>iconIndex\<close> added.
\<close>

record JsonCard =
  json_id :: int
  json_isMatched :: bool
  json_isFlipped :: bool
  json_color :: string
  json_iconIndex :: int

text \<open>
  The text under the key \<^verbatim>\<open>memory_cards\<close>, up to what \<^verbatim>\<open>JSON.parse\<close> makes of it:
  \<open>JSON cs\<close> is the text of an array of card objects, which \<^verbatim>\<open>JSON.stringify\<close> writes
  and \<^verbatim>\<open>JSON.parse\<close> reads back as \<open>cs\<close>; \<open>Malformed\<close> is a text that is not empty and
  on which \<^verbatim>\<open>JSON.parse\<close> throws a \<^verbatim>\<open>SyntaxError\<close> (or whose value is not an array,
  so that the call of \<^verbatim>\<open>map\<close> throws a \<^verbatim>\<open>TypeError\<close>: the same \<^verbatim>\<open>catch\<close> block
  takes both). The empty text, which \<^verbatim>\<open>if (savedCards)\<close> skips, counts as no entry.
\<close>

datatype cards_text = JSON "JsonCard list" | Malformed

text \<open>
  The four entries of \<^verbatim>\<open>MEMORY_STORAGE_KEYS\<close> in \<^verbatim>\<open>sessionStorage\<close>, each field
  named by its key. \<open>None\<close> is what \<^verbatim>\<open>getItem\<close> returns as \<^verbatim>\<open>null\<close>.
\<close>

record SessionStorage =
  memory_cards :: "cards_text option"
  memory_matches :: "string option"
  memory_is_checking :: "string option"
  memory_game_state :: "string option"

subsection \<open>The component\<close>

text \<open>
  The callback handed to \<^verbatim>\<open>setTimeout\<close> is a closure: it keeps the \<^verbatim>\<open>newCards\<close>,
  the \<^verbatim>\<open>matches\<close> and the \<^verbatim>\<open>isMatch\<close> of the click that created it.
\<close>

record Closure =
  newCards :: "MemoryCard list"
  matches_seen :: number
  isMatch :: bool

text \<open>
  \<^verbatim>\<open>type GameState = "ready" | "playing" | "complete"\<close> is a string at run time, and
  the load effect casts whatever text it finds (\<^verbatim>\<open>savedGameState as GameState\<close>), so
  the phase is a string here too.
\<close>

type_synonym GameState = string

record Engine =
  gameState :: GameState
  cards :: "MemoryCard list"
  matches :: number
  isChecking :: bool
  sessionStorage :: SessionStorage
  timers :: "Closure list"
  console :: "string list"

datatype error = TypeError

text \<open>\<^verbatim>\<open>cards[clickedIndex]\<close>: \<^verbatim>\<open>undefined\<close> (\<open>None\<close>) outside the array.\<close>

definition at_index :: "'a list \<Rightarrow> int \<Rightarrow> 'a option" where
  "at_index xs i = (if 0 \<le> i \<and> i < int (length xs) then Some (xs ! nat i) else None)"

text \<open>
  The save effect, run after every render in which one of the four state variables changed:
  it writes all four keys.
\<close>

definition serializableCard :: "MemoryCard \<Rightarrow> JsonCard" where
  "serializableCard c =
     \<lparr>json_id = id' c, json_isMatched = isMatched c, json_isFlipped = isFlipped c,
      json_color = color c, json_iconIndex = id' c div 2\<rparr>"

definition saveEffect :: "Engine \<Rightarrow> Engine" where
  "saveEffect s =
     s\<lparr>sessionStorage :=
         \<lparr>memory_cards = Some (JSON (map serializableCard (cards s))),
          memory_matches = Some (toString (matches s)),
          memory_is_checking = Some (if isChecking s then ''true'' else ''false''),
          memory_game_state = Some (gameState s)\<rparr>\<rparr>"

text \<open>\<^verbatim>\<open>clearSessionStorage\<close> removes the four keys.\<close>

definition clearSessionStorage :: "Engine \<Rightarrow> Engine" where
  "clearSessionStorage s =
     s\<lparr>sessionStorage :=
         \<lparr>memory_cards = None, memory_matches = None, memory_is_checking = None,
          memory_game_state = None\<rparr>\<rparr>"

text \<open>
  \<^verbatim>\<open>CARD_CONFIGS.find((_, i) => Math.floor(card.id / 2) === i)\<close>: the first element
  whose position satisfies the test, counting from \<open>i\<close>.
\<close>

fun find_at :: "('a \<Rightarrow> int \<Rightarrow> bool) \<Rightarrow> 'a list \<Rightarrow> int \<Rightarrow> 'a option" where
  "find_at p [] i = None"
| "find_at p (x # xs) i = (if p x i then Some x else find_at p xs (i + 1))"

text \<open>
  One card of the load effect: \<^verbatim>\<open>{ ...card, icon: iconConfig?.icon || Heart }\<close>. The
  \<^verbatim>\<open>iconIndex\<close> that the parsed object carries stays on the restored object but nothing
  reads it, and \<open>MemoryCard\<close> has no such field.
\<close>

definition restoreCard :: "JsonCard \<Rightarrow> MemoryCard" where
  "restoreCard c =
     (let iconConfig = find_at (\<lambda>_ i. json_id c div 2 = i) CARD_CONFIGS 0
      in \<lparr>id' = json_id c,
          icon = (case iconConfig of None \<Rightarrow> Heart | Some (icn, col) \<Rightarrow> icn),
          isMatched = json_isMatched c, isFlipped = json_isFlipped c, color = json_color c\<rparr>)"

text \<open>
  The load effect. An empty text is falsy, so \<^verbatim>\<open>if (savedGameState)\<close> and
  \<^verbatim>\<open>if (savedMatches)\<close> skip it like a missing entry. \<^verbatim>\<open>setGameState\<close> and
  \<^verbatim>\<open>setMatches\<close> are called before \<^verbatim>\<open>JSON.parse\<close>; when that throws, the
  \<^verbatim>\<open>catch\<close> block writes one line to the console and the two updates stay queued.
  The key \<^verbatim>\<open>memory_is_checking\<close> is not read.
\<close>

definition loadEffect :: "Engine \<Rightarrow> Engine" where
  "loadEffect s =
     (let savedGameState = memory_game_state (sessionStorage s);
          savedMatches = memory_matches (sessionStorage s);
          savedCards = memory_cards (sessionStorage s);
          s1 = (case savedGameState of
                  None \<Rightarrow> s
                | Some g \<Rightarrow> if g = [] then s else s\<lparr>gameState := g\<rparr>);
          s2 = (case savedMatches of
                  None \<Rightarrow> s1
                | Some m \<Rightarrow> if m = [] then s1 else s1\<lparr>matches := parseInt m\<rparr>)
      in case savedCards of
           None \<Rightarrow> s2
         | Some (JSON parsedCards) \<Rightarrow> s2\<lparr>cards := map restoreCard parsedCards\<rparr>
         | Some Malformed \<Rightarrow>
             s2\<lparr>console := console s2 @ [''Error loading Memory Game from session storage:'']\<rparr>)"

text \<open>
  Mounting the component in a browser session whose storage is \<open>st\<close>: the four
  \<^verbatim>\<open>useState\<close> initial values, then the load effect and the save effect. (On the first
  render the save effect runs after the load effect has read the storage, and again after the
  render that the load effect causes; both times it writes all four keys, so its last run
  decides the storage.)
\<close>

definition initialState :: "(MemoryCard list \<Rightarrow> MemoryCard list) \<Rightarrow> SessionStorage \<Rightarrow> Engine" where
  "initialState sort_random st =
     \<lparr>gameState = ''ready'', cards = createCards sort_random, matches = Num 0,
      isChecking = False, sessionStorage = st, timers = [], console = []\<rparr>"

definition mount :: "(MemoryCard list \<Rightarrow> MemoryCard list) \<Rightarrow> SessionStorage \<Rightarrow> Engine" where
  "mount sort_random st = saveEffect (loadEffect (initialState sort_random st))"

text \<open>
  \<^verbatim>\<open>handleCardClick\<close>. The guard reads \<^verbatim>\<open>cards[clickedIndex].isMatched\<close> only when
  \<^verbatim>\<open>isChecking\<close> is false; outside the array the read of a property of
  \<^verbatim>\<open>undefined\<close> throws a \<^verbatim>\<open>TypeError\<close>. When exactly two cards are face up and
  unmatched after the flip, \<^verbatim>\<open>setTimeout\<close> takes a new callback.
\<close>

definition handleCardClick :: "Engine \<Rightarrow> int \<Rightarrow> error + Engine" where
  "handleCardClick s clickedIndex =
     (if isChecking s then Inr s
      else case at_index (cards s) clickedIndex of
        None \<Rightarrow> Inl TypeError
      | Some clicked \<Rightarrow>
          if isMatched clicked \<or> isFlipped clicked then Inr s
          else
            let newCards = (cards s)[nat clickedIndex := clicked\<lparr>isFlipped := True\<rparr>];
                flippedCards = filter (\<lambda>c. isFlipped c \<and> \<not> isMatched c) newCards
            in (case flippedCards of
                  [firstCard, secondCard] \<Rightarrow>
                    Inr (s\<lparr>cards := newCards, isChecking := True,
                           timers := timers s @
                             [\<lparr>newCards = newCards, matches_seen = matches s,
                               isMatch = (id' firstCard div 2 = id' secondCard div 2)\<rparr>]\<rparr>)
                | _ \<Rightarrow> Inr (s\<lparr>cards := newCards\<rparr>)))"

text \<open>
  The body of the callback, run on the state at the time the timer expires. It reads
  nothing of that state: the cards it writes are computed from the \<^verbatim>\<open>newCards\<close> of its
  closure and the count from the \<^verbatim>\<open>matches\<close> of its closure.
\<close>

definition callback :: "Closure \<Rightarrow> Engine \<Rightarrow> Engine" where
  "callback k s =
     (if isMatch k then
        let updatedCards =
              map (\<lambda>c. if isFlipped c \<and> \<not> isMatched c then c\<lparr>isMatched := True\<rparr> else c)
                (newCards k);
            s1 = s\<lparr>matches := plus_number (matches_seen k) (Num 1)\<rparr>;
            s2 = (if strict_equal (plus_number (matches_seen k) (Num 1))
                       (Num (int (length CARD_CONFIGS)))
                  then s1\<lparr>gameState := ''complete''\<rparr> else s1)
        in s2\<lparr>cards := updatedCards, isChecking := False\<rparr>
      else
        let updatedCards =
              map (\<lambda>c. if isFlipped c \<and> \<not> isMatched c then c\<lparr>isFlipped := False\<rparr> else c)
                (newCards k)
        in s\<lparr>cards := updatedCards, isChecking := False\<rparr>)"

text \<open>\<^verbatim>\<open>startGame\<close>, with the outcome of the shuffle of the new deck as parameter.\<close>

definition startGame :: "(MemoryCard list \<Rightarrow> MemoryCard list) \<Rightarrow> Engine \<Rightarrow> Engine" where
  "startGame sort_random s =
     clearSessionStorage
       (s\<lparr>gameState := ''playing'', cards := createCards sort_random, matches := Num 0,
          isChecking := False\<rparr>)"

text \<open>
  \<^verbatim>\<open>handleComplete\<close>: the number passed to \<^verbatim>\<open>onComplete\<close>, and the state after
  \<^verbatim>\<open>clearSessionStorage\<close>. No state variable changes, so no save effect follows.
\<close>

definition handleComplete :: "Engine \<Rightarrow> number \<times> Engine" where
  "handleComplete s = (let score = times_number (matches s) (Num 100) in (score, clearSessionStorage s))"

subsection \<open>Events\<close>

text \<open>
  What happens to a mounted component during play: a click on the card at some index, or
  the expiry of the oldest timer (all timers have the same delay, so they expire in the
  order they were set). A click whose handler throws leaves the state as it was; a click
  whose handler returns early sets no state, so neither a render nor the save effect
  follows. In every other case the render is followed by the save effect.
\<close>

datatype event = Click int | Expire

definition click :: "Engine \<Rightarrow> int \<Rightarrow> Engine" where
  "click s i =
     (case handleCardClick s i of
        Inl e \<Rightarrow> s
      | Inr s' \<Rightarrow> if s' = s then s else saveEffect s')"

definition expire :: "Engine \<Rightarrow> Engine" where
  "expire s =
     (case timers s of
        [] \<Rightarrow> s
      | k # rest \<Rightarrow> saveEffect (callback k (s\<lparr>timers := rest\<rparr>)))"

fun step :: "Engine \<Rightarrow> event \<Rightarrow> Engine" where
  "step s (Click i) = click s i"
| "step s Expire = expire s"

fun run :: "Engine \<Rightarrow> event list \<Rightarrow> Engine" where
  "run s [] = s"
| "run s (e # es) = run (step s e) es"

text \<open>The click on \<^verbatim>\<open>Start Game\<close>: \<^verbatim>\<open>startGame\<close>, the render and the save effect.\<close>

definition start :: "(MemoryCard list \<Rightarrow> MemoryCard list) \<Rightarrow> Engine \<Rightarrow> Engine" where
  "start sort_random s = saveEffect (startGame sort_random s)"

subsection \<open>Play\<close>

text \<open>
  The cards that \<^verbatim>\<open>handleCardClick\<close> and the callback select with
  \<^verbatim>\<open>card.isFlipped && !card.isMatched\<close>: face up and not yet matched.
\<close>

abbreviation flippedCardsOf :: "MemoryCard list \<Rightarrow> MemoryCard list" where
  "flippedCardsOf cs \<equiv> filter (\<lambda>c. isFlipped c \<and> \<not> isMatched c) cs"

text \<open>
  The states of orderly play. Either no callback is held by \<^verbatim>\<open>setTimeout\<close>, the
  component is not checking and fewer than two cards are face up and unmatched; or exactly
  one callback is held, the component is checking, exactly two cards are face up and
  unmatched, and the closure of the callback holds the cards and the match count of the
  state and the comparison of the pair keys of those two cards.
\<close>

definition coherent :: "Engine \<Rightarrow> bool" where
  "coherent s =
     (case timers s of
        [] \<Rightarrow> \<not> isChecking s \<and> length (flippedCardsOf (cards s)) < 2
      | [k] \<Rightarrow>
          isChecking s \<and> length (flippedCardsOf (cards s)) = 2 \<and>
          newCards k = cards s \<and> matches_seen k = matches s \<and>
          isMatch k = (pairKey (flippedCardsOf (cards s) ! 0) = pairKey (flippedCardsOf (cards s) ! 1))
      | _ \<Rightarrow> False)"

text \<open>The card at position \<open>j\<close> of the deck is face up and matched.\<close>

definition matchedAt :: "nat \<Rightarrow> Engine \<Rightarrow> bool" where
  "matchedAt j s = (j < length (cards s) \<and> isFlipped (cards s ! j) \<and> isMatched (cards s ! j))"

subsection \<open>Reloading the page\<close>

text \<open>
  A reload of the page in the same browser session: the component is mounted again on the
  session storage as it stands. The timers of the old page are gone with the page, and so is
  its console. The shuffle is that of the \<^verbatim>\<open>createCards()\<close> call of the new mount.
\<close>

definition reload :: "(MemoryCard list \<Rightarrow> MemoryCard list) \<Rightarrow> Engine \<Rightarrow> Engine" where
  "reload sort_random s = mount sort_random (sessionStorage s)"

text \<open>The session storage holds what the save effect writes for the state.\<close>

definition saved :: "Engine \<Rightarrow> bool" where
  "saved s = (sessionStorage s = sessionStorage (saveEffect s))"

subsection \<open>States used as examples\<close>

text \<open>
  A browser session with nothing stored, and a game started in it whose shuffle left the
  deck in the reverse of the order of creation: index 0 holds card 11, index 1 card 10, and
  so on down to card 0 at index 11.
\<close>

definition noSnapshot :: SessionStorage where
  "noSnapshot =
     \<lparr>memory_cards = None, memory_matches = None, memory_is_checking = None,
      memory_game_state = None\<rparr>"

definition started :: Engine where
  "started = start rev (mount rev noSnapshot)"

section \<open>Properties\<close>

lemma forEach_push_CARD_CONFIGS:
  "forEach_push CARD_CONFIGS 0 [] =
     [\<lparr>id' = 0, icon = Heart, isMatched = False, isFlipped = False, color = ''text-rose-500''\<rparr>,
      \<lparr>id' = 1, icon = Heart, isMatched = False, isFlipped = False, color = ''text-rose-500''\<rparr>,
      \<lparr>id' = 2, icon = Star, isMatched = False, isFlipped = False, color = ''text-amber-500''\<rparr>,
      \<lparr>id' = 3, icon = Star, isMatched = False, isFlipped = False, color = ''text-amber-500''\<rparr>,
      \<lparr>id' = 4, icon = Sun, isMatched = False, isFlipped = False, color = ''text-yellow-500''\<rparr>,
      \<lparr>id' = 5, icon = Sun, isMatched = False, isFlipped = False, color = ''text-yellow-500''\<rparr>,
      \<lparr>id' = 6, icon = Moon, isMatched = False, isFlipped = False, color = ''text-purple-500''\<rparr>,
      \<lparr>id' = 7, icon = Moon, isMatched = False, isFlipped = False, color = ''text-purple-500''\<rparr>,
      \<lparr>id' = 8, icon = Cloud, isMatched = False, isFlipped = False, color = ''text-sky-500''\<rparr>,
      \<lparr>id' = 9, icon = Cloud, isMatched = False, isFlipped = False, color = ''text-sky-500''\<rparr>,
      \<lparr>id' = 10, icon = Flower2, isMatched = False, isFlipped = False, color = ''text-emerald-500''\<rparr>,
      \<lparr>id' = 11, icon = Flower2, isMatched = False, isFlipped = False, color = ''text-emerald-500''\<rparr>]"
  by (simp add: CARD_CONFIGS_def)

subsection \<open>The deck\<close>

lemma pairKeys_ordered:
  "image_mset pairKey (mset (forEach_push CARD_CONFIGS 0 [])) =
     mset [0, 0, 1, 1, 2, 2, 3, 3, 4, 4, 5, 5]"
  by (simp add: forEach_push_CARD_CONFIGS pairKey_def)

lemma ids_ordered:
  "map id' (forEach_push CARD_CONFIGS 0 []) = [0, 1, 2, 3, 4, 5, 6, 7, 8, 9, 10, 11]"
  by (simp add: forEach_push_CARD_CONFIGS)

lemma count_keys:
  "count (mset [0, 0, 1, 1, 2, 2, 3, 3, 4, 4, 5, 5 :: int]) k = (if 0 \<le> k \<and> k < 6 then 2 else 0)"
  by auto

lemma ordered_face_down:
  "\<forall>c \<in> set (forEach_push CARD_CONFIGS 0 []).
     \<not> isFlipped c \<and> \<not> isMatched c \<and> (icon c, color c) = CARD_CONFIGS ! nat (id' c div 2)"
  by (simp add: forEach_push_CARD_CONFIGS CARD_CONFIGS_def)

text \<open>
  C7. Whatever order the random sort leaves the cards in, the deck of \<open>createCards\<close> has
  \<open>2 * length CARD_CONFIGS = 12\<close> cards; every pair key from 0 to 5 occurs exactly twice
  among its cards and no other key occurs; every card is face down and unmatched and carries
  the icon and colour of the configuration at its pair key; and the ids are 0 to 11, each
  once, that is \<open>2k\<close> and \<open>2k + 1\<close> for each configuration index \<open>k\<close>.
\<close>

theorem createCards_deck:
  assumes "mset (sort_random (forEach_push CARD_CONFIGS 0 [])) = mset (forEach_push CARD_CONFIGS 0 [])"
  shows "length (createCards sort_random) = 2 * length CARD_CONFIGS
       \<and> length (createCards sort_random) = 12
       \<and> (\<forall>k. count (image_mset pairKey (mset (createCards sort_random))) k
               = (if 0 \<le> k \<and> k < int (length CARD_CONFIGS) then 2 else 0))
       \<and> (\<forall>c \<in> set (createCards sort_random). \<not> isFlipped c \<and> \<not> isMatched c
               \<and> (icon c, color c) = CARD_CONFIGS ! nat (id' c div 2))
       \<and> mset (map id' (createCards sort_random)) = mset [0, 1, 2, 3, 4, 5, 6, 7, 8, 9, 10, 11]"
proof -
  let ?L = "forEach_push CARD_CONFIGS 0 []"
  let ?D = "createCards sort_random"
  have m: "mset ?D = mset ?L" using assms by (simp add: createCards_def)
  have len: "length ?D = 12"
    using arg_cong [OF m, of size] by (simp add: forEach_push_CARD_CONFIGS)
  have n: "length CARD_CONFIGS = 6" by (simp add: CARD_CONFIGS_def)
  have keys: "\<forall>k. count (image_mset pairKey (mset ?D)) k
                 = (if 0 \<le> k \<and> k < int (length CARD_CONFIGS) then 2 else 0)"
    unfolding m pairKeys_ordered n using count_keys by simp
  have s: "set ?D = set ?L" using m by (rule mset_eq_setD)
  have down: "\<forall>c \<in> set ?D. \<not> isFlipped c \<and> \<not> isMatched c
                 \<and> (icon c, color c) = CARD_CONFIGS ! nat (id' c div 2)"
    unfolding s using ordered_face_down by blast
  have ids: "mset (map id' ?D) = mset [0, 1, 2, 3, 4, 5, 6, 7, 8, 9, 10, 11]"
  proof -
    have "mset (map id' ?D) = image_mset id' (mset ?D)" by simp
    also have "\<dots> = image_mset id' (mset ?L)" by (simp only: m)
    also have "\<dots> = mset (map id' ?L)" by simp
    finally show ?thesis by (simp only: ids_ordered)
  qed
  show ?thesis using len n keys down ids by simp
qed

theorem createCards_deck_witness:
  "mset (rev (forEach_push CARD_CONFIGS 0 [])) = mset (forEach_push CARD_CONFIGS 0 [])
   \<and> length (createCards rev) = 12
   \<and> count (image_mset pairKey (mset (createCards rev))) 3 = 2
   \<and> mset (map id' (createCards rev)) = mset [0, 1, 2, 3, 4, 5, 6, 7, 8, 9, 10, 11]"
  using createCards_deck [of rev] by (simp add: CARD_CONFIGS_def)

subsection \<open>Completion\<close>

text \<open>
  C8. \<open>handleComplete\<close> passes \<open>matches * 100\<close> to \<^verbatim>\<open>onComplete\<close> for every value of
  \<open>matches\<close> (for the integer \<open>m\<close> the score is \<open>m * 100\<close>) and removes the four
  storage keys. It does so in every phase \<open>g\<close>: the handler does not look at
  \<open>gameState\<close>, and leaves it as it is.
\<close>

theorem handleComplete_score:
  "fst (handleComplete s) = times_number (matches s) (Num 100)
   \<and> fst (handleComplete (s\<lparr>matches := Num m, gameState := g\<rparr>)) = Num (m * 100)
   \<and> sessionStorage (snd (handleComplete (s\<lparr>matches := Num m, gameState := g\<rparr>))) =
        \<lparr>memory_cards = None, memory_matches = None, memory_is_checking = None,
         memory_game_state = None\<rparr>
   \<and> snd (handleComplete s) = clearSessionStorage s
   \<and> gameState (snd (handleComplete (s\<lparr>matches := Num m, gameState := g\<rparr>))) = g"
  by (simp add: handleComplete_def clearSessionStorage_def)

subsection \<open>Restoring cards\<close>

lemma find_at_position:
  "find_at (\<lambda>_ i. k = i) xs i0 =
     (if i0 \<le> k \<and> k < i0 + int (length xs) then Some (xs ! nat (k - i0)) else None)"
proof (induction xs arbitrary: i0)
  case Nil
  then show ?case by simp
next
  case (Cons x xs)
  show ?case
  proof (cases "k = i0")
    case True
    then show ?thesis by simp
  next
    case False
    have "i0 + 1 \<le> k \<Longrightarrow> nat (k - i0) = Suc (nat (k - (i0 + 1)))" by simp
    with False show ?thesis by (auto simp: Cons.IH)
  qed
qed

lemma restoreCard_icon:
  "icon (restoreCard c) =
     (if 0 \<le> json_id c \<and> json_id c < 2 * int (length CARD_CONFIGS)
      then fst (CARD_CONFIGS ! nat (json_id c div 2)) else Heart)"
proof -
  have "(0 \<le> json_id c div 2 \<and> json_id c div 2 < int (length CARD_CONFIGS))
          = (0 \<le> json_id c \<and> json_id c < 2 * int (length CARD_CONFIGS))"
    by auto
  then show ?thesis
    by (simp add: restoreCard_def find_at_position split: prod.split)
qed

lemma restoreCard_fields:
  "id' (restoreCard c) = json_id c \<and> isMatched (restoreCard c) = json_isMatched c
   \<and> isFlipped (restoreCard c) = json_isFlipped c \<and> color (restoreCard c) = json_color c"
  by (simp add: restoreCard_def)

lemma loadEffect_cards_JSON:
  "memory_cards (sessionStorage s) = Some (JSON cs) \<Longrightarrow>
     cards (loadEffect s) = map restoreCard cs \<and> console (loadEffect s) = console s"
  by (simp add: loadEffect_def Let_def split: option.split)

text \<open>
  C10. When the stored card array parses, a card in it whose id is outside \<open>0..11\<close>
  (below 0, or at least \<open>2 * length CARD_CONFIGS\<close>) is restored with the icon \<open>Heart\<close>:
  the card stays in the deck at its position with its stored id and flags, the deck has as
  many cards as the stored array, and nothing is written to the console.
\<close>

theorem restore_unknown_id_Heart:
  assumes "memory_cards st = Some (JSON cs)"
      and "j < length cs"
      and "json_id (cs ! j) < 0 \<or> 2 * int (length CARD_CONFIGS) \<le> json_id (cs ! j)"
  shows "length (cards (mount sort_random st)) = length cs
       \<and> console (mount sort_random st) = []
       \<and> icon (cards (mount sort_random st) ! j) = Heart
       \<and> id' (cards (mount sort_random st) ! j) = json_id (cs ! j)
       \<and> isMatched (cards (mount sort_random st) ! j) = json_isMatched (cs ! j)
       \<and> isFlipped (cards (mount sort_random st) ! j) = json_isFlipped (cs ! j)"
proof -
  have "sessionStorage (initialState sort_random st) = st" by (simp add: initialState_def)
  with assms(1) have l: "cards (loadEffect (initialState sort_random st)) = map restoreCard cs
      \<and> console (loadEffect (initialState sort_random st)) = console (initialState sort_random st)"
    using loadEffect_cards_JSON by simp
  have c: "cards (mount sort_random st) = map restoreCard cs"
    using l by (simp add: mount_def saveEffect_def)
  have k: "console (mount sort_random st) = []"
    using l by (simp add: mount_def saveEffect_def initialState_def)
  have "icon (restoreCard (cs ! j)) = Heart"
    using assms(3) by (auto simp: restoreCard_icon)
  then show ?thesis using c k assms(2) by (simp add: restoreCard_fields)
qed

theorem restore_unknown_id_Heart_witness:
  "icon (cards (mount id
      \<lparr>memory_cards = Some (JSON [\<lparr>json_id = 40, json_isMatched = False, json_isFlipped = True,
                                  json_color = ''text-sky-500'', json_iconIndex = 20\<rparr>]),
       memory_matches = None, memory_is_checking = None, memory_game_state = None\<rparr>) ! 0) = Heart
   \<and> length (cards (mount id
      \<lparr>memory_cards = Some (JSON [\<lparr>json_id = 40, json_isMatched = False, json_isFlipped = True,
                                  json_color = ''text-sky-500'', json_iconIndex = 20\<rparr>]),
       memory_matches = None, memory_is_checking = None, memory_game_state = None\<rparr>)) = 1"
  using restore_unknown_id_Heart [of
      "\<lparr>memory_cards = Some (JSON [\<lparr>json_id = 40, json_isMatched = False, json_isFlipped = True,
                                  json_color = ''text-sky-500'', json_iconIndex = 20\<rparr>]),
       memory_matches = None, memory_is_checking = None, memory_game_state = None\<rparr>"
      "[\<lparr>json_id = 40, json_isMatched = False, json_isFlipped = True,
                                  json_color = ''text-sky-500'', json_iconIndex = 20\<rparr>]" 0 id]
  by (simp add: CARD_CONFIGS_def)

subsection \<open>Numbers written and read back\<close>

lemma of_char_digitChar_all: "\<forall>d \<in> set [0..<10]. of_char (digitChar d) = 48 + d"
  by code_simp

lemma of_char_digitChar: "d < 10 \<Longrightarrow> of_char (digitChar d) = 48 + d"
  using of_char_digitChar_all by simp

lemma digitChar_props:
  assumes "d < 10"
  shows "digitValue (digitChar d) = Some d" and "\<not> isWhiteSpace (digitChar d)"
    and "digitChar d \<noteq> CHR ''-''" and "digitChar d \<noteq> CHR ''+''"
    and "digitChar d \<noteq> CHR ''x''" and "digitChar d \<noteq> CHR ''X''"
proof -
  have n: "of_char (digitChar d) = 48 + d" using assms by (rule of_char_digitChar)
  show "digitValue (digitChar d) = Some d" using assms by (simp add: digitValue_def n)
  show "\<not> isWhiteSpace (digitChar d)" using assms by (simp add: isWhiteSpace_def n)
  have "\<And>c. (of_char c :: nat) \<noteq> 48 + d \<Longrightarrow> digitChar d \<noteq> c" using n by auto
  then show "digitChar d \<noteq> CHR ''-''" and "digitChar d \<noteq> CHR ''+''"
    and "digitChar d \<noteq> CHR ''x''" and "digitChar d \<noteq> CHR ''X''"
    using assms by simp_all
qed

lemma isDecimal_not_x: "isDecimal c \<Longrightarrow> c \<noteq> CHR ''x'' \<and> c \<noteq> CHR ''X''"
  by (auto simp: isDecimal_def digitChar_props)

lemma digits_decimal: "\<forall>c \<in> set (digits n). isDecimal c"
proof (induction n rule: digits.induct)
  case (1 n)
  show ?case
  proof (cases "n < 10")
    case True
    then show ?thesis by (subst digits.simps) (auto simp: isDecimal_def)
  next
    case False
    have "n mod 10 < 10" by simp
    then have "isDecimal (digitChar (n mod 10))" unfolding isDecimal_def by blast
    with False 1 show ?thesis by (subst digits.simps) auto
  qed
qed

lemma digits_nonempty: "digits n \<noteq> []"
  by (subst digits.simps) simp

lemma mathInt_append: "mathInt R acc (xs @ ys) = mathInt R (mathInt R acc xs) ys"
  by (induction xs arbitrary: acc) auto

lemma mathInt_digits: "mathInt 10 0 (digits n) = n"
proof (induction n rule: digits.induct)
  case (1 n)
  show ?case
  proof (cases "n < 10")
    case True
    then show ?thesis by (subst digits.simps) (simp add: digitChar_props)
  next
    case False
    have "n mod 10 < 10" by simp
    then have "digitValue (digitChar (n mod 10)) = Some (n mod 10)" by (rule digitChar_props)
    with False 1 show ?thesis by (subst digits.simps) (simp add: mathInt_append)
  qed
qed

lemma take2_second_in_set: "take 2 xs = [a, b] \<Longrightarrow> b \<in> set xs"
proof -
  assume "take 2 xs = [a, b]"
  then have "b \<in> set (take 2 xs)" by simp
  then show ?thesis by (rule in_set_takeD)
qed

lemma decimal_no_hex_prefix:
  assumes "\<forall>c \<in> set xs. isDecimal c"
  shows "take 2 xs \<noteq> ''0x''" and "take 2 xs \<noteq> ''0X''"
proof -
  show "take 2 xs \<noteq> ''0x''"
  proof
    assume "take 2 xs = ''0x''"
    then have "CHR ''x'' \<in> set xs" by (rule take2_second_in_set)
    then have "isDecimal CHR ''x''" using assms by simp
    then show False using isDecimal_not_x [of "CHR ''x''"] by simp
  qed
  show "take 2 xs \<noteq> ''0X''"
  proof
    assume "take 2 xs = ''0X''"
    then have "CHR ''X'' \<in> set xs" by (rule take2_second_in_set)
    then have "isDecimal CHR ''X''" using assms by simp
    then show False using isDecimal_not_x [of "CHR ''X''"] by simp
  qed
qed

lemma decimal_no_sign:
  assumes "xs \<noteq> []" and "\<forall>c \<in> set xs. isDecimal c"
  shows "take 1 xs \<noteq> ''-''" and "take 1 xs \<noteq> ''+''" and "dropWhile isWhiteSpace xs = xs"
proof -
  obtain a rest where xs: "xs = a # rest" using assms(1) by (cases xs) auto
  then have "isDecimal a" using assms(2) by simp
  then obtain d where "d < 10" "a = digitChar d" unfolding isDecimal_def by blast
  then have "\<not> isWhiteSpace a" "a \<noteq> CHR ''-''" "a \<noteq> CHR ''+''"
    using digitChar_props(2,3,4) [of d] by simp_all
  then show "take 1 xs \<noteq> ''-''" and "take 1 xs \<noteq> ''+''" and "dropWhile isWhiteSpace xs = xs"
    by (simp_all add: xs)
qed

lemma decimal_takeWhile:
  assumes "\<forall>c \<in> set xs. isDecimal c"
  shows "takeWhile (isRadixDigit 10) xs = xs"
proof -
  have "\<And>c. isDecimal c \<Longrightarrow> isRadixDigit 10 c"
    unfolding isDecimal_def isRadixDigit_def using digitChar_props(1) by auto
  then show ?thesis using assms by (simp add: takeWhile_eq_all_conv)
qed

lemma parseInt_decimal:
  assumes "xs \<noteq> []" and "\<forall>c \<in> set xs. isDecimal c"
  shows "parseInt xs = Num (int (mathInt 10 0 xs))"
  unfolding parseInt_def Let_def decimal_no_sign(3) [OF assms]
  by (simp only: decimal_no_sign(1,2) [OF assms] decimal_no_hex_prefix [OF assms(2)]
        decimal_takeWhile [OF assms(2)] assms(1) if_False simp_thms mult_1)

lemma parseInt_minus_decimal:
  assumes "xs \<noteq> []" and "\<forall>c \<in> set xs. isDecimal c"
  shows "parseInt (CHR ''-'' # xs) = Num (- int (mathInt 10 0 xs))"
proof -
  have d: "dropWhile isWhiteSpace (CHR ''-'' # xs) = CHR ''-'' # xs"
    by (simp add: isWhiteSpace_def)
  have t: "take 1 (CHR ''-'' # xs) = ''-''" and r: "drop 1 (CHR ''-'' # xs) = xs"
    by simp_all
  show ?thesis
    unfolding parseInt_def Let_def d t r
    by (simp only: decimal_no_hex_prefix [OF assms(2)] decimal_takeWhile [OF assms(2)]
          assms(1) if_False if_True simp_thms mult_minus1)
qed

lemma parseInt_toString: "parseInt (toString (Num n)) = Num n"
  using parseInt_decimal [OF digits_nonempty digits_decimal]
    parseInt_minus_decimal [OF digits_nonempty digits_decimal]
  by (simp add: mathInt_digits)

lemma toString_nonempty: "toString x \<noteq> []"
  by (cases x) (simp_all add: digits_nonempty)

lemma parseInt_NaN: "parseInt ''NaN'' = NaN"
  by (simp add: parseInt_def isWhiteSpace_def isRadixDigit_def digitValue_def)

lemma parseInt_toString_any: "parseInt (toString x) = x"
proof (cases x)
  case (Num n)
  then show ?thesis by (simp only: parseInt_toString)
next
  case NaN
  then show ?thesis by (simp add: parseInt_NaN)
qed

subsection \<open>Clicks that are ignored\<close>

lemma list_update_changes: "i < length xs \<Longrightarrow> x \<noteq> xs ! i \<Longrightarrow> xs[i := x] \<noteq> xs"
  by (metis nth_list_update_eq)

lemma handleCardClick_outcomes:
  "(handleCardClick s i = Inr s) =
     (isChecking s \<or>
      (0 \<le> i \<and> i < int (length (cards s)) \<and>
       (isMatched (cards s ! nat i) \<or> isFlipped (cards s ! nat i))))
   \<and> (handleCardClick s i = Inl TypeError) =
     (\<not> isChecking s \<and> (i < 0 \<or> int (length (cards s)) \<le> i))"
proof (cases "isChecking s")
  case True
  then show ?thesis by (simp add: handleCardClick_def)
next
  case nc: False
  show ?thesis
  proof (cases "0 \<le> i \<and> i < int (length (cards s))")
    case False
    with nc show ?thesis by (auto simp: handleCardClick_def at_index_def)
  next
    case inr: True
    let ?c = "cards s ! nat i"
    show ?thesis
    proof (cases "isMatched ?c \<or> isFlipped ?c")
      case True
      with nc inr show ?thesis by (simp add: handleCardClick_def at_index_def)
    next
      case False
      let ?new = "(cards s)[nat i := ?c\<lparr>isFlipped := True\<rparr>]"
      have "?c\<lparr>isFlipped := True\<rparr> \<noteq> ?c" using False
        by (metis MemoryCard.select_convs(4) MemoryCard.surjective MemoryCard.update_convs(4))
      moreover have "nat i < length (cards s)" using inr by linarith
      ultimately have ne: "?new \<noteq> cards s" by (rule list_update_changes [rotated])
      have "\<And>s'. cards s' = ?new \<Longrightarrow> s' \<noteq> s" using ne by auto
      then have "handleCardClick s i \<noteq> Inr s \<and> handleCardClick s i \<noteq> Inl TypeError"
        using nc inr False
        by (auto simp: handleCardClick_def at_index_def Let_def split: list.splits)
      with nc inr False show ?thesis by simp
    qed
  qed
qed

text \<open>
  C3, as amended. \<open>handleCardClick\<close> returns without an error and with the whole state
  as it was exactly when \<open>isChecking\<close> is set, whatever the index, or the index is inside
  the deck and its card is matched or face up. With \<open>isChecking\<close> clear, an index outside
  the deck is not ignored: the handler throws a \<^verbatim>\<open>TypeError\<close>, and it does so in
  exactly that case.
\<close>

theorem handleCardClick_ignored:
  "(handleCardClick s i = Inr s) =
     (isChecking s \<or>
      (0 \<le> i \<and> i < int (length (cards s)) \<and>
       (isMatched (cards s ! nat i) \<or> isFlipped (cards s ! nat i))))
   \<and> (handleCardClick s i = Inl TypeError) =
     (\<not> isChecking s \<and> (i < 0 \<or> int (length (cards s)) \<le> i))"
  by (rule handleCardClick_outcomes)

theorem handleCardClick_ignored_witness:
  "isFlipped (cards (click started 3) ! 3)
   \<and> handleCardClick (click started 3) 3 = Inr (click started 3)
   \<and> isChecking (click (click started 3) 5)
   \<and> handleCardClick (click (click started 3) 5) 12 = Inr (click (click started 3) 5)
   \<and> handleCardClick (click started 3) (- 1) = Inl TypeError"
proof -
  have a: "isFlipped (cards (click started 3) ! 3)" "length (cards (click started 3)) = 12"
    "\<not> isChecking (click started 3)"
    by code_simp+
  have b: "isChecking (click (click started 3) 5)" by code_simp
  show ?thesis
    using handleCardClick_ignored [of "click started 3" 3]
      handleCardClick_ignored [of "click (click started 3) 5" 12]
      handleCardClick_ignored [of "click started 3" "- 1"] a b
    by simp
qed

text \<open>
  The started game is not checking and has twelve cards, at indices 0 to 11. A click at
  index 12 throws.
\<close>

theorem handleCardClick_out_of_range_counterexample:
  "isChecking started = False \<and> length (cards started) = 12
   \<and> handleCardClick started 12 = Inl TypeError"
  by code_simp

subsection \<open>Loading a snapshot\<close>

text \<open>
  C9, as amended. When the text stored under \<^verbatim>\<open>memory_cards\<close> does not parse, mounting
  the component does not fail: the \<^verbatim>\<open>catch\<close> block writes one line to the console, and
  the deck is the fresh deck of \<open>createCards\<close>, as if no cards were stored, with
  \<open>isChecking\<close> clear and no timer. The stored phase and match count are read before the
  cards are parsed and stay applied: the phase is the stored text unless that is missing or
  empty, and the count is \<open>parseInt\<close> of the stored text unless that is missing or empty
  (\<^verbatim>\<open>NaN\<close> when the text has no digits, which is not logged).
\<close>

theorem load_malformed_cards:
  assumes "memory_cards st = Some Malformed"
  shows "console (mount sort_random st) = [''Error loading Memory Game from session storage:'']
       \<and> cards (mount sort_random st) = createCards sort_random
       \<and> isChecking (mount sort_random st) = False
       \<and> timers (mount sort_random st) = []
       \<and> gameState (mount sort_random st) =
           (case memory_game_state st of
              None \<Rightarrow> ''ready''
            | Some g \<Rightarrow> if g = [] then ''ready'' else g)
       \<and> matches (mount sort_random st) =
           (case memory_matches st of
              None \<Rightarrow> Num 0
            | Some m \<Rightarrow> if m = [] then Num 0 else parseInt m)"
  using assms
  by (simp add: mount_def saveEffect_def loadEffect_def initialState_def Let_def
        split: option.split)

theorem load_malformed_cards_witness:
  "memory_cards \<lparr>memory_cards = Some Malformed, memory_matches = Some ''3'',
                  memory_is_checking = Some ''false'', memory_game_state = Some ''playing''\<rparr>
     = Some Malformed
   \<and> console (mount rev \<lparr>memory_cards = Some Malformed, memory_matches = Some ''3'',
                  memory_is_checking = Some ''false'', memory_game_state = Some ''playing''\<rparr>)
     = [''Error loading Memory Game from session storage:'']
   \<and> cards (mount rev \<lparr>memory_cards = Some Malformed, memory_matches = Some ''3'',
                  memory_is_checking = Some ''false'', memory_game_state = Some ''playing''\<rparr>)
     = createCards rev"
  using load_malformed_cards [of "\<lparr>memory_cards = Some Malformed, memory_matches = Some ''3'',
                  memory_is_checking = Some ''false'', memory_game_state = Some ''playing''\<rparr>" rev]
  by simp

text \<open>
  A snapshot of a game in play with three matches whose card text is malformed: the mounted
  component is in phase \<^verbatim>\<open>playing\<close> with three matches, not in the state that mounting
  without a snapshot gives.
\<close>

theorem load_malformed_partial_restore_counterexample:
  "gameState (mount rev \<lparr>memory_cards = Some Malformed, memory_matches = Some ''3'',
                  memory_is_checking = Some ''false'', memory_game_state = Some ''playing''\<rparr>)
     = ''playing''
   \<and> matches (mount rev \<lparr>memory_cards = Some Malformed, memory_matches = Some ''3'',
                  memory_is_checking = Some ''false'', memory_game_state = Some ''playing''\<rparr>)
     = Num 3
   \<and> gameState (mount rev noSnapshot) = ''ready''
   \<and> matches (mount rev noSnapshot) = Num 0"
  by code_simp

subsection \<open>Saving and loading\<close>

lemma saveEffect_fields:
  "gameState (saveEffect s) = gameState s" "cards (saveEffect s) = cards s"
  "matches (saveEffect s) = matches s" "isChecking (saveEffect s) = isChecking s"
  "timers (saveEffect s) = timers s" "console (saveEffect s) = console s"
  by (simp_all add: saveEffect_def)

lemma restore_serializable:
  "id' (restoreCard (serializableCard c)) = id' c"
  "isMatched (restoreCard (serializableCard c)) = isMatched c"
  "isFlipped (restoreCard (serializableCard c)) = isFlipped c"
  "color (restoreCard (serializableCard c)) = color c"
  "icon (restoreCard (serializableCard c)) =
     (if 0 \<le> id' c \<and> id' c < 2 * int (length CARD_CONFIGS)
      then fst (CARD_CONFIGS ! nat (id' c div 2)) else Heart)"
  by (auto simp: restoreCard_fields restoreCard_icon serializableCard_def)

text \<open>
  What a reload keeps of a saved state: the phase, the match count and, card by card, the
  id, the two flags and the colour, with the icon taken from the id. It does not keep
  \<open>isChecking\<close>, which is false after every mount, nor the timers.
\<close>

lemma save_load_fields:
  assumes "gameState s \<noteq> []"
  shows "gameState (mount sort_random (sessionStorage (saveEffect s))) = gameState s
       \<and> matches (mount sort_random (sessionStorage (saveEffect s))) = matches s
       \<and> cards (mount sort_random (sessionStorage (saveEffect s))) =
           map (restoreCard \<circ> serializableCard) (cards s)
       \<and> isChecking (mount sort_random (sessionStorage (saveEffect s))) = False
       \<and> timers (mount sort_random (sessionStorage (saveEffect s))) = []"
  using assms
  by (simp add: mount_def saveEffect_fields)
     (simp add: saveEffect_def loadEffect_def initialState_def Let_def
        toString_nonempty parseInt_toString_any)

text \<open>
  C5, at the state after the second click of a pair that does not match (cards 11 and 9 of
  the started game): \<open>isChecking\<close> is set and the save effect writes \<^verbatim>\<open>true\<close> under
  \<^verbatim>\<open>memory_is_checking\<close>, but the component mounted on that storage has \<open>isChecking\<close>
  clear and no timer pending. The load effect never reads the key.
\<close>

theorem save_load_isChecking_lost:
  "isChecking (run started [Click 0, Click 2]) = True
   \<and> memory_is_checking (sessionStorage (saveEffect (run started [Click 0, Click 2]))) = Some ''true''
   \<and> isChecking (mount rev (sessionStorage (saveEffect (run started [Click 0, Click 2])))) = False
   \<and> timers (mount rev (sessionStorage (saveEffect (run started [Click 0, Click 2])))) = []"
  by code_simp

subsection \<open>Orderly play is preserved\<close>

lemma filter_update_length:
  "i < length xs \<Longrightarrow> \<not> P (xs ! i) \<Longrightarrow> P x \<Longrightarrow>
     length (filter P (xs[i := x])) = Suc (length (filter P xs))"
proof (induction xs arbitrary: i)
  case Nil
  then show ?case by simp
next
  case (Cons y ys)
  then show ?case by (cases i) auto
qed

lemma two_or_not: "(\<exists>a b. xs = [a, b]) \<or> length xs \<noteq> 2"
  by (cases xs rule: list.exhaust; simp; cases "tl xs"; auto)

lemma case_two:
  "(case [a, b] of [x, y] \<Rightarrow> f x y | _ \<Rightarrow> g) = f a b"
  by simp

lemma case_not_two:
  "length xs \<noteq> 2 \<Longrightarrow> (case xs of [x, y] \<Rightarrow> f x y | _ \<Rightarrow> g) = g"
  by (auto split: list.splits)

text \<open>The click that flips a card.\<close>

lemma handleCardClick_flip:
  assumes "\<not> isChecking s" and "0 \<le> i" and "i < int (length (cards s))"
      and "\<not> isMatched (cards s ! nat i)" and "\<not> isFlipped (cards s ! nat i)"
  shows "handleCardClick s i =
           (case flippedCardsOf ((cards s)[nat i := (cards s ! nat i)\<lparr>isFlipped := True\<rparr>]) of
              [firstCard, secondCard] \<Rightarrow>
                Inr (s\<lparr>cards := (cards s)[nat i := (cards s ! nat i)\<lparr>isFlipped := True\<rparr>],
                       isChecking := True,
                       timers := timers s @
                         [\<lparr>newCards = (cards s)[nat i := (cards s ! nat i)\<lparr>isFlipped := True\<rparr>],
                           matches_seen = matches s,
                           isMatch = (id' firstCard div 2 = id' secondCard div 2)\<rparr>]\<rparr>)
            | _ \<Rightarrow> Inr (s\<lparr>cards := (cards s)[nat i := (cards s ! nat i)\<lparr>isFlipped := True\<rparr>]\<rparr>))"
  using assms by (simp add: handleCardClick_def at_index_def Let_def)

lemma flip_count:
  assumes "0 \<le> i" and "i < int (length (cards s))"
      and "\<not> isMatched (cards s ! nat i)" and "\<not> isFlipped (cards s ! nat i)"
  shows "length (flippedCardsOf ((cards s)[nat i := (cards s ! nat i)\<lparr>isFlipped := True\<rparr>]))
           = Suc (length (flippedCardsOf (cards s)))"
proof -
  have "nat i < length (cards s)" using assms(1,2) by linarith
  then show ?thesis using assms(3,4) by (intro filter_update_length) simp_all
qed


lemma coherent_saveEffect: "coherent (saveEffect s) = coherent s"
  by (simp add: coherent_def saveEffect_fields split: list.split)

lemma matchedAt_saveEffect: "matchedAt j (saveEffect s) = matchedAt j s"
  by (simp add: matchedAt_def saveEffect_fields)

lemma click_result:
  "click s i = s \<or>
   (\<not> isChecking s \<and> 0 \<le> i \<and> i < int (length (cards s)) \<and>
    \<not> isMatched (cards s ! nat i) \<and> \<not> isFlipped (cards s ! nat i) \<and>
    ((length (flippedCardsOf ((cards s)[nat i := (cards s ! nat i)\<lparr>isFlipped := True\<rparr>])) \<noteq> 2 \<and>
      click s i = saveEffect (s\<lparr>cards := (cards s)[nat i := (cards s ! nat i)\<lparr>isFlipped := True\<rparr>]\<rparr>))
     \<or> (\<exists>a b. flippedCardsOf ((cards s)[nat i := (cards s ! nat i)\<lparr>isFlipped := True\<rparr>]) = [a, b] \<and>
          click s i =
            saveEffect
              (s\<lparr>cards := (cards s)[nat i := (cards s ! nat i)\<lparr>isFlipped := True\<rparr>],
                 isChecking := True,
                 timers := timers s @
                   [\<lparr>newCards = (cards s)[nat i := (cards s ! nat i)\<lparr>isFlipped := True\<rparr>],
                     matches_seen = matches s,
                     isMatch = (id' a div 2 = id' b div 2)\<rparr>]\<rparr>))))"
proof -
  let ?nc = "(cards s)[nat i := (cards s ! nat i)\<lparr>isFlipped := True\<rparr>]"
  consider (ignored) "handleCardClick s i = Inr s" | (thrown) "handleCardClick s i = Inl TypeError"
    | (flip) "\<not> isChecking s" "0 \<le> i" "i < int (length (cards s))"
        "\<not> isMatched (cards s ! nat i)" "\<not> isFlipped (cards s ! nat i)"
    using handleCardClick_outcomes [of s i] by (cases "0 \<le> i \<and> i < int (length (cards s))") auto
  then show ?thesis
  proof cases
    case ignored
    then show ?thesis by (simp add: click_def)
  next
    case thrown
    then show ?thesis by (simp add: click_def)
  next
    case flip
    note h = handleCardClick_flip [OF flip]
    from two_or_not [of "flippedCardsOf ?nc"] show ?thesis
    proof
      assume "\<exists>a b. flippedCardsOf ?nc = [a, b]"
      then obtain a b where ab: "flippedCardsOf ?nc = [a, b]" by blast
      have "handleCardClick s i =
              Inr (s\<lparr>cards := ?nc, isChecking := True,
                     timers := timers s @
                       [\<lparr>newCards = ?nc, matches_seen = matches s,
                         isMatch = (id' a div 2 = id' b div 2)\<rparr>]\<rparr>)"
        unfolding h ab by simp
      then show ?thesis using flip ab by (auto simp: click_def)
    next
      assume n2: "length (flippedCardsOf ?nc) \<noteq> 2"
      have "handleCardClick s i = Inr (s\<lparr>cards := ?nc\<rparr>)"
        unfolding h using n2 by (rule case_not_two)
      then show ?thesis using flip n2 by (auto simp: click_def)
    qed
  qed
qed


lemma callback_fields:
  "cards (callback k s) =
     map (if isMatch k
          then (\<lambda>c. if isFlipped c \<and> \<not> isMatched c then c\<lparr>isMatched := True\<rparr> else c)
          else (\<lambda>c. if isFlipped c \<and> \<not> isMatched c then c\<lparr>isFlipped := False\<rparr> else c))
       (newCards k)"
  "isChecking (callback k s) = False"
  "timers (callback k s) = timers s"
  "matches (callback k s) = (if isMatch k then plus_number (matches_seen k) (Num 1) else matches s)"
  "gameState (callback k s) =
     (if isMatch k \<and> strict_equal (plus_number (matches_seen k) (Num 1)) (Num 6)
      then ''complete'' else gameState s)"
  "console (callback k s) = console s"
  "sessionStorage (callback k s) = sessionStorage s"
  by (simp_all add: callback_def Let_def CARD_CONFIGS_def)

lemma resolved_none_flipped:
  "flippedCardsOf (map (\<lambda>c. if isFlipped c \<and> \<not> isMatched c then c\<lparr>isMatched := True\<rparr> else c) xs) = []"
  "flippedCardsOf (map (\<lambda>c. if isFlipped c \<and> \<not> isMatched c then c\<lparr>isFlipped := False\<rparr> else c) xs) = []"
  by (induction xs) auto

lemma callback_none_flipped: "flippedCardsOf (cards (callback k s)) = []"
  by (simp add: callback_fields resolved_none_flipped)

lemma expire_single:
  "timers s = k # rest \<Longrightarrow> expire s = saveEffect (callback k (s\<lparr>timers := rest\<rparr>))"
  by (simp add: expire_def)

lemma expire_none: "timers s = [] \<Longrightarrow> expire s = s"
  by (simp add: expire_def)

lemma coherent_cases:
  assumes "coherent s"
  obtains (idle) "timers s = []" and "\<not> isChecking s" and "length (flippedCardsOf (cards s)) < 2"
  | (busy) k where "timers s = [k]" and "isChecking s"
      and "length (flippedCardsOf (cards s)) = 2"
      and "newCards k = cards s" and "matches_seen k = matches s"
      and "isMatch k = (pairKey (flippedCardsOf (cards s) ! 0) = pairKey (flippedCardsOf (cards s) ! 1))"
  using assms unfolding coherent_def by (auto split: list.splits)

lemma coherent_expire:
  assumes "coherent s"
  shows "coherent (expire s)"
  using assms
proof (cases rule: coherent_cases)
  case idle
  with assms show ?thesis by (simp add: expire_none)
next
  case (busy k)
  have "expire s = saveEffect (callback k (s\<lparr>timers := []\<rparr>))"
    using busy(1) by (rule expire_single)
  then show ?thesis
    by (simp add: coherent_saveEffect) (simp add: coherent_def callback_fields callback_none_flipped)
qed

lemma coherent_click:
  assumes "coherent s"
  shows "coherent (click s i)"
proof -
  let ?nc = "(cards s)[nat i := (cards s ! nat i)\<lparr>isFlipped := True\<rparr>]"
  from click_result [of s i] show ?thesis
  proof (elim disjE conjE exE)
    assume "click s i = s"
    with assms show ?thesis by simp
  next
    assume f: "\<not> isChecking s" "0 \<le> i" "i < int (length (cards s))"
      "\<not> isMatched (cards s ! nat i)" "\<not> isFlipped (cards s ! nat i)"
      and n2: "length (flippedCardsOf ?nc) \<noteq> 2"
      and c: "click s i = saveEffect (s\<lparr>cards := ?nc\<rparr>)"
    from assms f(1) have t: "timers s = []" and l: "length (flippedCardsOf (cards s)) < 2"
      by (cases rule: coherent_cases; simp)+
    have "length (flippedCardsOf ?nc) = Suc (length (flippedCardsOf (cards s)))"
      using f(2-) by (rule flip_count)
    with l n2 have "length (flippedCardsOf ?nc) < 2" by linarith
    then show ?thesis using t f(1) by (simp add: c coherent_saveEffect) (simp add: coherent_def)
  next
    fix a b
    assume f: "\<not> isChecking s" "0 \<le> i" "i < int (length (cards s))"
      "\<not> isMatched (cards s ! nat i)" "\<not> isFlipped (cards s ! nat i)"
      and ab: "flippedCardsOf ?nc = [a, b]"
      and c: "click s i =
            saveEffect
              (s\<lparr>cards := ?nc, isChecking := True,
                 timers := timers s @
                   [\<lparr>newCards = ?nc, matches_seen = matches s,
                     isMatch = (id' a div 2 = id' b div 2)\<rparr>]\<rparr>)"
    from assms f(1) have t: "timers s = []"
      by (cases rule: coherent_cases; simp)
    show ?thesis
      by (simp add: c coherent_saveEffect) (simp add: coherent_def t ab pairKey_def)
  qed
qed

lemma coherent_step: "coherent s \<Longrightarrow> coherent (step s e)"
  by (cases e) (simp_all add: coherent_click coherent_expire)

lemma coherent_run: "coherent s \<Longrightarrow> coherent (run s es)"
  by (induction es arbitrary: s) (simp_all add: coherent_step)

subsection \<open>Matched cards stay matched\<close>

lemma matchedAt_click:
  assumes "matchedAt j s"
  shows "matchedAt j (click s i)"
proof -
  let ?nc = "(cards s)[nat i := (cards s ! nat i)\<lparr>isFlipped := True\<rparr>]"
  have keep: "\<not> isMatched (cards s ! nat i) \<Longrightarrow>
      j < length ?nc \<and> isFlipped (?nc ! j) \<and> isMatched (?nc ! j)"
    using assms by (cases "j = nat i") (auto simp: matchedAt_def)
  from click_result [of s i] show ?thesis
  proof (elim disjE conjE exE)
    assume "click s i = s"
    with assms show ?thesis by simp
  next
    assume "\<not> isMatched (cards s ! nat i)"
      and "click s i = saveEffect (s\<lparr>cards := ?nc\<rparr>)"
    then show ?thesis using keep by (simp add: matchedAt_saveEffect) (simp add: matchedAt_def)
  next
    fix a b
    assume "\<not> isMatched (cards s ! nat i)"
      and "click s i =
            saveEffect
              (s\<lparr>cards := ?nc, isChecking := True,
                 timers := timers s @
                   [\<lparr>newCards = ?nc, matches_seen = matches s,
                     isMatch = (id' a div 2 = id' b div 2)\<rparr>]\<rparr>)"
    then show ?thesis using keep by (simp add: matchedAt_saveEffect) (simp add: matchedAt_def)
  qed
qed

lemma matchedAt_expire:
  assumes "coherent s" and "matchedAt j s"
  shows "matchedAt j (expire s)"
  using assms(1)
proof (cases rule: coherent_cases)
  case idle
  with assms(2) show ?thesis by (simp add: expire_none)
next
  case (busy k)
  have e: "expire s = saveEffect (callback k (s\<lparr>timers := []\<rparr>))"
    using busy(1) by (rule expire_single)
  show ?thesis
    using assms(2) busy(4)
    by (simp add: e matchedAt_saveEffect) (simp add: matchedAt_def callback_fields)
qed

lemma matchedAt_step: "coherent s \<Longrightarrow> matchedAt j s \<Longrightarrow> matchedAt j (step s e)"
  by (cases e) (simp_all add: matchedAt_click matchedAt_expire)

lemma matchedAt_run: "coherent s \<Longrightarrow> matchedAt j s \<Longrightarrow> matchedAt j (run s es)"
  by (induction es arbitrary: s) (simp_all add: matchedAt_step coherent_step)

subsection \<open>Play after \<^verbatim>\<open>startGame\<close>\<close>

lemma createCards_none_flipped:
  assumes "mset (sort_random (forEach_push CARD_CONFIGS 0 [])) = mset (forEach_push CARD_CONFIGS 0 [])"
  shows "flippedCardsOf (createCards sort_random) = []"
proof -
  have "set (createCards sort_random) = set (forEach_push CARD_CONFIGS 0 [])"
    unfolding createCards_def using assms by (rule mset_eq_setD)
  then show ?thesis using ordered_face_down by (simp add: filter_empty_conv)
qed

lemma start_fields:
  "gameState (start sort_random s) = ''playing''"
  "cards (start sort_random s) = createCards sort_random"
  "matches (start sort_random s) = Num 0"
  "isChecking (start sort_random s) = False"
  "timers (start sort_random s) = timers s"
  "console (start sort_random s) = console s"
  by (simp_all add: start_def saveEffect_fields)
     (simp_all add: startGame_def clearSessionStorage_def)

lemma coherent_start:
  assumes "timers s0 = []"
      and "mset (sort_random (forEach_push CARD_CONFIGS 0 [])) = mset (forEach_push CARD_CONFIGS 0 [])"
  shows "coherent (start sort_random s0)"
  using assms(1) createCards_none_flipped [of sort_random, OF assms(2)]
  by (simp add: coherent_def start_fields)

lemma checking_click_ignored: "isChecking s \<Longrightarrow> click s i = s"
  by (simp add: click_def handleCardClick_def)

lemma coherent_summary:
  assumes "coherent s"
  shows "length (timers s) \<le> 1
       \<and> isChecking s = (timers s \<noteq> [])
       \<and> isChecking s = (length (flippedCardsOf (cards s)) = 2)
       \<and> (isChecking s \<longrightarrow>
            (\<forall>i. click s i = s)
          \<and> timers (expire s) = [] \<and> \<not> isChecking (expire s)
          \<and> flippedCardsOf (cards (expire s)) = []
          \<and> (\<exists>k. timers s = [k]
                \<and> isMatch k = (pairKey (flippedCardsOf (cards s) ! 0)
                                = pairKey (flippedCardsOf (cards s) ! 1))
                \<and> cards (expire s) =
                    map (if isMatch k
                         then (\<lambda>c. if isFlipped c \<and> \<not> isMatched c then c\<lparr>isMatched := True\<rparr> else c)
                         else (\<lambda>c. if isFlipped c \<and> \<not> isMatched c then c\<lparr>isFlipped := False\<rparr> else c))
                      (cards s)))"
  using assms
proof (cases rule: coherent_cases)
  case idle
  then show ?thesis by simp
next
  case (busy k)
  have e: "expire s = saveEffect (callback k (s\<lparr>timers := []\<rparr>))"
    using busy(1) by (rule expire_single)
  have "timers (expire s) = []" "\<not> isChecking (expire s)"
    "flippedCardsOf (cards (expire s)) = []"
    "cards (expire s) =
       map (if isMatch k
            then (\<lambda>c. if isFlipped c \<and> \<not> isMatched c then c\<lparr>isMatched := True\<rparr> else c)
            else (\<lambda>c. if isFlipped c \<and> \<not> isMatched c then c\<lparr>isFlipped := False\<rparr> else c))
         (cards s)"
    unfolding e saveEffect_fields
    by (simp_all only: callback_fields callback_none_flipped busy(4)) simp_all
  then show ?thesis using busy checking_click_ignored by simp
qed

text \<open>
  Play on one page. Take any sequence \<open>es\<close> of clicks and timer expiries after
  \<^verbatim>\<open>Start Game\<close> on a
  component with no timer pending, whatever the shuffle. In the state it leads to, at most
  one callback is pending; \<open>isChecking\<close> is set exactly when one is pending, and exactly when
  two cards are face up and unmatched. While it is set, every click, at any index, is
  ignored and leaves the state as it is, so it stays set until the timer expires. The expiry
  runs the one callback and leaves none pending (it cannot run again), clears \<open>isChecking\<close>,
  and writes the deck once, with the same change applied to both cards of the pair (both
  matched, or both face down, by the comparison of their pair keys): no card is left face up
  and unmatched.
\<close>

theorem play_resolution_pending:
  assumes "timers s0 = []"
      and "mset (sort_random (forEach_push CARD_CONFIGS 0 [])) = mset (forEach_push CARD_CONFIGS 0 [])"
  shows "length (timers (run (start sort_random s0) es)) \<le> 1
       \<and> isChecking (run (start sort_random s0) es) = (timers (run (start sort_random s0) es) \<noteq> [])
       \<and> isChecking (run (start sort_random s0) es)
           = (length (flippedCardsOf (cards (run (start sort_random s0) es))) = 2)
       \<and> (isChecking (run (start sort_random s0) es) \<longrightarrow>
            (\<forall>i. click (run (start sort_random s0) es) i = run (start sort_random s0) es)
          \<and> timers (expire (run (start sort_random s0) es)) = []
          \<and> \<not> isChecking (expire (run (start sort_random s0) es))
          \<and> flippedCardsOf (cards (expire (run (start sort_random s0) es))) = []
          \<and> (\<exists>k. timers (run (start sort_random s0) es) = [k]
                \<and> isMatch k = (pairKey (flippedCardsOf (cards (run (start sort_random s0) es)) ! 0)
                                = pairKey (flippedCardsOf (cards (run (start sort_random s0) es)) ! 1))
                \<and> cards (expire (run (start sort_random s0) es)) =
                    map (if isMatch k
                         then (\<lambda>c. if isFlipped c \<and> \<not> isMatched c then c\<lparr>isMatched := True\<rparr> else c)
                         else (\<lambda>c. if isFlipped c \<and> \<not> isMatched c then c\<lparr>isFlipped := False\<rparr> else c))
                      (cards (run (start sort_random s0) es))))"
  by (rule coherent_summary [OF coherent_run [OF coherent_start [of s0 sort_random, OF assms]]])

theorem play_resolution_pending_witness:
  "timers (mount rev noSnapshot) = []
   \<and> isChecking (run started [Click 0, Click 2])
   \<and> length (timers (run started [Click 0, Click 2])) \<le> 1
   \<and> click (run started [Click 0, Click 2]) 5 = run started [Click 0, Click 2]
   \<and> timers (expire (run started [Click 0, Click 2])) = []
   \<and> flippedCardsOf (cards (expire (run started [Click 0, Click 2]))) = []"
proof -
  have t: "timers (mount rev noSnapshot) = []" by code_simp
  have c: "isChecking (run (start rev (mount rev noSnapshot)) [Click 0, Click 2])" by code_simp
  have p: "mset (rev (forEach_push CARD_CONFIGS 0 [])) = mset (forEach_push CARD_CONFIGS 0 [])"
    by simp
  show ?thesis
    using play_resolution_pending [of "mount rev noSnapshot" rev "[Click 0, Click 2]", OF t p] t c
    unfolding started_def by blast
qed

subsection \<open>The resolution of a pair\<close>

lemma second_click:
  assumes "timers s = []" and "click s i \<noteq> s"
      and "flippedCardsOf (cards (click s i)) = [a, b]"
  shows "timers (click s i) =
           [\<lparr>newCards = cards (click s i), matches_seen = matches s,
             isMatch = (pairKey a = pairKey b)\<rparr>]"
    and "isChecking (click s i)" and "matches (click s i) = matches s"
    and "gameState (click s i) = gameState s" and "coherent (click s i)"
proof -
  let ?nc = "(cards s)[nat i := (cards s ! nat i)\<lparr>isFlipped := True\<rparr>]"
  let ?k = "\<lparr>newCards = ?nc, matches_seen = matches s, isMatch = (pairKey a = pairKey b)\<rparr>"
  have c: "click s i = saveEffect (s\<lparr>cards := ?nc, isChecking := True, timers := timers s @ [?k]\<rparr>)"
    using click_result [of s i]
  proof (elim disjE conjE exE)
    assume "click s i = s"
    with assms(2) show ?thesis by simp
  next
    assume "length (flippedCardsOf ?nc) \<noteq> 2"
      and "click s i = saveEffect (s\<lparr>cards := ?nc\<rparr>)"
    with assms(3) show ?thesis by (simp add: saveEffect_fields)
  next
    fix a' b'
    assume ab: "flippedCardsOf ?nc = [a', b']"
      and c': "click s i =
            saveEffect
              (s\<lparr>cards := ?nc, isChecking := True,
                 timers := timers s @
                   [\<lparr>newCards = ?nc, matches_seen = matches s,
                     isMatch = (id' a' div 2 = id' b' div 2)\<rparr>]\<rparr>)"
    have "cards (click s i) = ?nc" by (simp add: c' saveEffect_fields)
    with assms(3) ab have "a' = a" "b' = b" by simp_all
    then show ?thesis using c' by (simp add: pairKey_def)
  qed
  have nc: "cards (click s i) = ?nc" by (simp add: c saveEffect_fields)
  show "timers (click s i) =
           [\<lparr>newCards = cards (click s i), matches_seen = matches s,
             isMatch = (pairKey a = pairKey b)\<rparr>]"
    unfolding nc by (simp add: c saveEffect_fields assms(1))
  show "isChecking (click s i)" "matches (click s i) = matches s"
    "gameState (click s i) = gameState s"
    by (simp_all add: c saveEffect_fields)
  have f: "flippedCardsOf ?nc = [a, b]" using assms(3) by (simp only: nc)
  show "coherent (click s i)"
    by (simp add: c coherent_saveEffect) (simp add: coherent_def assms(1) f)
qed

lemma expire_after_second_click:
  assumes "timers s = []" and "click s i \<noteq> s"
      and "flippedCardsOf (cards (click s i)) = [a, b]"
  shows "expire (click s i) =
           saveEffect
             (callback \<lparr>newCards = cards (click s i), matches_seen = matches s,
                        isMatch = (pairKey a = pairKey b)\<rparr>
                ((click s i)\<lparr>timers := []\<rparr>))"
  using second_click(1) [OF assms] by (rule expire_single)


lemma click_flips:
  assumes "\<not> isChecking s" and "j < length (cards s)"
      and "\<not> isMatched (cards s ! j)" and "\<not> isFlipped (cards s ! j)"
  shows "cards (click s (int j)) = (cards s)[j := (cards s ! j)\<lparr>isFlipped := True\<rparr>]"
    and "click s (int j) \<noteq> s"
proof -
  let ?nc = "(cards s)[j := (cards s ! j)\<lparr>isFlipped := True\<rparr>]"
  have ne: "?nc \<noteq> cards s"
    using assms(2,4) by (metis MemoryCard.select_convs(4) MemoryCard.update_convs(4)
        MemoryCard.surjective nth_list_update_eq)
  have "click s (int j) \<noteq> s \<and> cards (click s (int j)) = ?nc"
    using click_result [of s "int j"]
  proof (elim disjE conjE exE)
    assume "click s (int j) = s"
    moreover have "handleCardClick s (int j) \<noteq> Inr s" "handleCardClick s (int j) \<noteq> Inl TypeError"
      using handleCardClick_outcomes [of s "int j"] assms by auto
    moreover obtain s' where s': "handleCardClick s (int j) = Inr s'" "cards s' = ?nc"
      using handleCardClick_flip [of s "int j"] assms two_or_not [of "flippedCardsOf ?nc"]
      by (auto simp: case_not_two)
    ultimately have "saveEffect s' = s" by (simp add: click_def split: if_splits)
    then have "cards s = ?nc" using s'(2) by (metis saveEffect_fields(2))
    with ne show ?thesis by simp
  next
    assume "click s (int j) = saveEffect (s\<lparr>cards := (cards s)[nat (int j) := (cards s ! nat (int j))\<lparr>isFlipped := True\<rparr>]\<rparr>)"
    then have "cards (click s (int j)) = ?nc" by (simp add: saveEffect_fields)
    with ne show ?thesis by auto
  next
    fix a b
    assume "click s (int j) =
            saveEffect
              (s\<lparr>cards := (cards s)[nat (int j) := (cards s ! nat (int j))\<lparr>isFlipped := True\<rparr>],
                 isChecking := True,
                 timers := timers s @
                   [\<lparr>newCards = (cards s)[nat (int j) := (cards s ! nat (int j))\<lparr>isFlipped := True\<rparr>],
                     matches_seen = matches s,
                     isMatch = (id' a div 2 = id' b div 2)\<rparr>]\<rparr>)"
    then have "cards (click s (int j)) = ?nc" by (simp add: saveEffect_fields)
    with ne show ?thesis by auto
  qed
  then show "cards (click s (int j)) = ?nc" and "click s (int j) \<noteq> s" by simp_all
qed

text \<open>
  C2. Let no callback be pending in \<open>s\<close>, and let the click at \<open>i\<close> flip a card so that
  exactly two cards, \<open>a\<close> and \<open>b\<close>, are face up and unmatched, with different pair keys.
  When the timer expires, the deck is the deck after the click with exactly the face-up
  unmatched cards turned face down; the match count and the phase are those of \<open>s\<close>;
  \<open>isChecking\<close> is clear and no callback is pending. Each of the two cards is then face
  down and unmatched, and a click on it is not ignored: it turns the card face up again.
\<close>

theorem mismatch_resolution:
  assumes "timers s = []" and "click s i \<noteq> s"
      and "flippedCardsOf (cards (click s i)) = [a, b]"
      and "pairKey a \<noteq> pairKey b"
  shows "cards (expire (click s i)) =
           map (\<lambda>c. if isFlipped c \<and> \<not> isMatched c then c\<lparr>isFlipped := False\<rparr> else c)
             (cards (click s i))
       \<and> matches (expire (click s i)) = matches s
       \<and> gameState (expire (click s i)) = gameState s
       \<and> \<not> isChecking (expire (click s i))
       \<and> timers (expire (click s i)) = []
       \<and> (\<forall>j < length (cards (click s i)).
            isFlipped (cards (click s i) ! j) \<and> \<not> isMatched (cards (click s i) ! j) \<longrightarrow>
              \<not> isFlipped (cards (expire (click s i)) ! j)
            \<and> \<not> isMatched (cards (expire (click s i)) ! j)
            \<and> click (expire (click s i)) (int j) \<noteq> expire (click s i)
            \<and> isFlipped (cards (click (expire (click s i)) (int j)) ! j))"
proof -
  let ?s1 = "click s i"
  let ?s2 = "expire ?s1"
  note sc = second_click [OF assms(1-3)]
  have e: "?s2 = saveEffect (callback \<lparr>newCards = cards ?s1, matches_seen = matches s,
                        isMatch = (pairKey a = pairKey b)\<rparr> (?s1\<lparr>timers := []\<rparr>))"
    using assms(1-3) by (rule expire_after_second_click)
  have c: "cards ?s2 =
      map (\<lambda>c. if isFlipped c \<and> \<not> isMatched c then c\<lparr>isFlipped := False\<rparr> else c) (cards ?s1)"
    unfolding e saveEffect_fields callback_fields using assms(4) by simp
  have m: "matches ?s2 = matches s" "gameState ?s2 = gameState s" "\<not> isChecking ?s2"
    "timers ?s2 = []"
    unfolding e saveEffect_fields callback_fields using assms(4) sc(3,4) by simp_all
  have again: "\<not> isFlipped (cards ?s2 ! j) \<and> \<not> isMatched (cards ?s2 ! j)
      \<and> click ?s2 (int j) \<noteq> ?s2 \<and> isFlipped (cards (click ?s2 (int j)) ! j)"
    if j: "j < length (cards ?s1)" "isFlipped (cards ?s1 ! j)" "\<not> isMatched (cards ?s1 ! j)" for j
  proof -
    have d: "\<not> isFlipped (cards ?s2 ! j)" "\<not> isMatched (cards ?s2 ! j)" "j < length (cards ?s2)"
      using j by (simp_all add: c)
    from click_flips [OF m(3) d(3) d(2) d(1)] d show ?thesis by simp
  qed
  show ?thesis using c m again by blast
qed


theorem mismatch_resolution_witness:
  "timers (click started 0) = []
   \<and> click (click started 0) 2 \<noteq> click started 0
   \<and> matches (expire (click (click started 0) 2)) = matches (click started 0)
   \<and> \<not> isChecking (expire (click (click started 0) 2))
   \<and> \<not> isFlipped (cards (expire (click (click started 0) 2)) ! 0)
   \<and> isFlipped (cards (click (expire (click (click started 0) 2)) 0) ! 0)
   \<and> \<not> isFlipped (cards (expire (click (click started 0) 2)) ! 2)
   \<and> isFlipped (cards (click (expire (click (click started 0) 2)) 2) ! 2)"
proof -
  let ?a = "\<lparr>id' = 11, icon = Flower2, isMatched = False, isFlipped = True,
             color = ''text-emerald-500''\<rparr>"
  let ?b = "\<lparr>id' = 9, icon = Cloud, isMatched = False, isFlipped = True,
             color = ''text-sky-500''\<rparr>"
  have h1: "timers (click started 0) = []" by code_simp
  have h2: "click (click started 0) 2 \<noteq> click started 0" by code_simp
  have h3: "flippedCardsOf (cards (click (click started 0) 2)) = [?a, ?b]" by code_simp
  have h4: "pairKey ?a \<noteq> pairKey ?b" by (simp add: pairKey_def)
  have l: "length (cards (click (click started 0) 2)) = 12"
    "isFlipped (cards (click (click started 0) 2) ! 0)"
    "\<not> isMatched (cards (click (click started 0) 2) ! 0)"
    "isFlipped (cards (click (click started 0) 2) ! 2)"
    "\<not> isMatched (cards (click (click started 0) 2) ! 2)"
    by code_simp+
  note r = mismatch_resolution [OF h1 h2 h3 h4]
  have q: "\<not> isFlipped (cards (expire (click (click started 0) 2)) ! j)
      \<and> isFlipped (cards (click (expire (click (click started 0) 2)) (int j)) ! j)"
    if "j < 12" "isFlipped (cards (click (click started 0) 2) ! j)"
      "\<not> isMatched (cards (click (click started 0) 2) ! j)" for j
    using r that l(1) by simp
  have "matches (expire (click (click started 0) 2)) = matches (click started 0)"
    "\<not> isChecking (expire (click (click started 0) 2))"
    using r by simp_all
  then show ?thesis using h1 h2 q [of 0] q [of 2] l by simp
qed

text \<open>
  C1. Let no callback be pending in \<open>s\<close>, let the match count of \<open>s\<close> be the integer
  \<open>m\<close>, and let the click at \<open>i\<close> flip a card so that exactly two cards, \<open>a\<close> and
  \<open>b\<close>, are face up and unmatched, with the same pair key. When the timer expires, the
  deck is the deck after the click with exactly the face-up unmatched cards marked matched;
  the match count is \<open>m + 1\<close>; the phase becomes \<^verbatim>\<open>complete\<close> if \<open>m + 1\<close> is the number
  of configured pairs and is otherwise the phase of \<open>s\<close>; \<open>isChecking\<close> is clear. From
  then on, after any sequence \<open>es\<close> of clicks and timer expiries, both cards are still at
  their positions, matched and face up.
\<close>

theorem match_resolution:
  assumes "timers s = []" and "click s i \<noteq> s"
      and "flippedCardsOf (cards (click s i)) = [a, b]"
      and "pairKey a = pairKey b"
      and "matches s = Num m"
  shows "cards (expire (click s i)) =
           map (\<lambda>c. if isFlipped c \<and> \<not> isMatched c then c\<lparr>isMatched := True\<rparr> else c)
             (cards (click s i))
       \<and> matches (expire (click s i)) = Num (m + 1)
       \<and> gameState (expire (click s i)) =
           (if m + 1 = int (length CARD_CONFIGS) then ''complete'' else gameState s)
       \<and> \<not> isChecking (expire (click s i))
       \<and> (\<forall>j < length (cards (click s i)).
            isFlipped (cards (click s i) ! j) \<and> \<not> isMatched (cards (click s i) ! j) \<longrightarrow>
              (\<forall>es. j < length (cards (run (expire (click s i)) es))
                  \<and> isMatched (cards (run (expire (click s i)) es) ! j)
                  \<and> isFlipped (cards (run (expire (click s i)) es) ! j)))"
proof -
  let ?s1 = "click s i"
  let ?s2 = "expire ?s1"
  note sc = second_click [OF assms(1-3)]
  have e: "?s2 = saveEffect (callback \<lparr>newCards = cards ?s1, matches_seen = matches s,
                        isMatch = (pairKey a = pairKey b)\<rparr> (?s1\<lparr>timers := []\<rparr>))"
    using assms(1-3) by (rule expire_after_second_click)
  have c: "cards ?s2 =
      map (\<lambda>c. if isFlipped c \<and> \<not> isMatched c then c\<lparr>isMatched := True\<rparr> else c) (cards ?s1)"
    unfolding e saveEffect_fields callback_fields using assms(4) by simp
  have m: "matches ?s2 = Num (m + 1)"
    "gameState ?s2 = (if m + 1 = int (length CARD_CONFIGS) then ''complete'' else gameState s)"
    "\<not> isChecking ?s2"
    unfolding e saveEffect_fields callback_fields using assms(4,5) sc(4)
    by (simp_all add: CARD_CONFIGS_def)
  have co: "coherent ?s2" using sc(5) by (rule coherent_expire)
  have stay: "j < length (cards (run ?s2 es)) \<and> isMatched (cards (run ?s2 es) ! j)
      \<and> isFlipped (cards (run ?s2 es) ! j)"
    if j: "j < length (cards ?s1)" "isFlipped (cards ?s1 ! j)" "\<not> isMatched (cards ?s1 ! j)"
    for j es
  proof -
    have "matchedAt j ?s2" using j by (simp add: matchedAt_def c)
    with co have "matchedAt j (run ?s2 es)" by (rule matchedAt_run)
    then show ?thesis by (simp add: matchedAt_def)
  qed
  show ?thesis using c m stay by blast
qed

theorem match_resolution_witness:
  "timers (click started 0) = []
   \<and> click (click started 0) 1 \<noteq> click started 0
   \<and> matches (click started 0) = Num 0
   \<and> matches (expire (click (click started 0) 1)) = Num 1
   \<and> gameState (expire (click (click started 0) 1)) = ''playing''
   \<and> isMatched (cards (run (expire (click (click started 0) 1)) [Click 0, Click 4, Click 1, Expire]) ! 0)
   \<and> isFlipped (cards (run (expire (click (click started 0) 1)) [Click 0, Click 4, Click 1, Expire]) ! 1)"
proof -
  let ?a = "\<lparr>id' = 11, icon = Flower2, isMatched = False, isFlipped = True,
             color = ''text-emerald-500''\<rparr>"
  let ?b = "\<lparr>id' = 10, icon = Flower2, isMatched = False, isFlipped = True,
             color = ''text-emerald-500''\<rparr>"
  have h1: "timers (click started 0) = []" by code_simp
  have h2: "click (click started 0) 1 \<noteq> click started 0" by code_simp
  have h3: "flippedCardsOf (cards (click (click started 0) 1)) = [?a, ?b]" by code_simp
  have h4: "pairKey ?a = pairKey ?b" by (simp add: pairKey_def)
  have h5: "matches (click started 0) = Num 0" by code_simp
  have g: "gameState (click started 0) = ''playing''" by code_simp
  have l: "length (cards (click (click started 0) 1)) = 12"
    "isFlipped (cards (click (click started 0) 1) ! 0)"
    "\<not> isMatched (cards (click (click started 0) 1) ! 0)"
    "isFlipped (cards (click (click started 0) 1) ! 1)"
    "\<not> isMatched (cards (click (click started 0) 1) ! 1)"
    by code_simp+
  have n: "length CARD_CONFIGS = 6" by (simp add: CARD_CONFIGS_def)
  note r = match_resolution [OF h1 h2 h3 h4 h5]
  have q: "isMatched (cards (run (expire (click (click started 0) 1)) es) ! j)
      \<and> isFlipped (cards (run (expire (click (click started 0) 1)) es) ! j)"
    if "j < 12" "isFlipped (cards (click (click started 0) 1) ! j)"
      "\<not> isMatched (cards (click (click started 0) 1) ! j)" for j es
    using r that l(1) by simp
  have "matches (expire (click (click started 0) 1)) = Num 1"
    "gameState (expire (click (click started 0) 1)) = ''playing''"
    using r g n by simp_all
  then show ?thesis
    using h1 h2 h5 q [of 0 "[Click 0, Click 4, Click 1, Expire]"]
      q [of 1 "[Click 0, Click 4, Click 1, Expire]"] l
    by simp
qed

subsection \<open>\<^verbatim>\<open>startGame\<close> while a callback is pending\<close>

text \<open>
  C6, as amended. \<open>startGame\<close> installs the new deck, phase \<^verbatim>\<open>playing\<close>, zero matches
  and a clear \<open>isChecking\<close>, and leaves a pending callback \<open>k\<close> pending. When the timer
  expires on the new game, the callback clears \<open>isChecking\<close> and replaces the new deck by
  the cards of its closure, those of the superseded deck, with the pair resolved. If the
  superseded pair did not match, the match count and the phase of the new game stay as
  \<open>startGame\<close> set them; if it matched, the count becomes the superseded count plus one
  and the phase \<^verbatim>\<open>complete\<close> when that is the number of configured pairs.
\<close>

theorem start_keeps_pending_callback:
  assumes "timers s = k # rest"
  shows "timers (start sort_random s) = k # rest
       \<and> cards (start sort_random s) = createCards sort_random
       \<and> matches (start sort_random s) = Num 0
       \<and> gameState (start sort_random s) = ''playing''
       \<and> \<not> isChecking (start sort_random s)
       \<and> timers (expire (start sort_random s)) = rest
       \<and> \<not> isChecking (expire (start sort_random s))
       \<and> cards (expire (start sort_random s)) =
           map (if isMatch k
                then (\<lambda>c. if isFlipped c \<and> \<not> isMatched c then c\<lparr>isMatched := True\<rparr> else c)
                else (\<lambda>c. if isFlipped c \<and> \<not> isMatched c then c\<lparr>isFlipped := False\<rparr> else c))
             (newCards k)
       \<and> matches (expire (start sort_random s)) =
           (if isMatch k then plus_number (matches_seen k) (Num 1) else Num 0)
       \<and> gameState (expire (start sort_random s)) =
           (if isMatch k \<and>
               strict_equal (plus_number (matches_seen k) (Num 1)) (Num (int (length CARD_CONFIGS)))
            then ''complete'' else ''playing'')"
proof -
  have t: "timers (start sort_random s) = k # rest" using assms by (simp add: start_fields)
  have e: "expire (start sort_random s) =
      saveEffect (callback k ((start sort_random s)\<lparr>timers := rest\<rparr>))"
    using t by (rule expire_single)
  have n: "int (length CARD_CONFIGS) = 6" by (simp add: CARD_CONFIGS_def)
  show ?thesis
    unfolding e saveEffect_fields callback_fields n
    using assms by (simp add: start_fields)
qed

theorem start_keeps_pending_callback_witness:
  "timers (run started [Click 0, Click 2]) =
     [\<lparr>newCards = cards (run started [Click 0, Click 2]), matches_seen = Num 0, isMatch = False\<rparr>]
   \<and> timers (start id (run started [Click 0, Click 2])) =
     [\<lparr>newCards = cards (run started [Click 0, Click 2]), matches_seen = Num 0, isMatch = False\<rparr>]
   \<and> cards (expire (start id (run started [Click 0, Click 2]))) =
       map (\<lambda>c. if isFlipped c \<and> \<not> isMatched c then c\<lparr>isFlipped := False\<rparr> else c)
         (cards (run started [Click 0, Click 2]))
   \<and> matches (expire (start id (run started [Click 0, Click 2]))) = Num 0
   \<and> gameState (expire (start id (run started [Click 0, Click 2]))) = ''playing''"
proof -
  have h: "timers (run started [Click 0, Click 2]) =
     [\<lparr>newCards = cards (run started [Click 0, Click 2]), matches_seen = Num 0, isMatch = False\<rparr>]"
    by code_simp
  from start_keeps_pending_callback [OF h, of id] h show ?thesis by simp
qed

text \<open>
  Cards 11 and 10 of the started game are face up and their callback is pending when a new
  game is started with the deck in creation order. After the timer expires the deck is not
  the new deck, and the match count is 1, not 0.
\<close>

theorem start_stale_callback_counterexample:
  "timers (run started [Click 0, Click 1]) \<noteq> []
   \<and> cards (start id (run started [Click 0, Click 1])) = createCards id
   \<and> matches (start id (run started [Click 0, Click 1])) = Num 0
   \<and> cards (expire (start id (run started [Click 0, Click 1]))) \<noteq> createCards id
   \<and> matches (expire (start id (run started [Click 0, Click 1]))) = Num 1"
  by code_simp

subsection \<open>Play resumed after a reload\<close>

lemma saved_saveEffect: "saved (saveEffect s)"
  by (simp add: saved_def saveEffect_def)

lemma saved_click: "saved s \<Longrightarrow> saved (click s i)"
  by (auto simp: click_def saved_saveEffect split: sum.splits)

lemma saved_expire: "saved s \<Longrightarrow> saved (expire s)"
  by (auto simp: expire_def saved_saveEffect split: list.splits)

lemma saved_run: "saved s \<Longrightarrow> saved (run s es)"
proof (induction es arbitrary: s)
  case Nil
  then show ?case by simp
next
  case (Cons e es)
  then show ?case by (cases e) (simp_all add: saved_click saved_expire)
qed

lemma saved_start: "saved (start sort_random s)"
  by (simp add: start_def saved_saveEffect)

lemma phase_click: "gameState (click s i) = gameState s"
  using click_result [of s i] by (auto simp: saveEffect_fields)

lemma phase_expire: "gameState s \<noteq> [] \<Longrightarrow> gameState (expire s) \<noteq> []"
  by (auto simp: expire_def saveEffect_fields callback_fields split: list.splits)

lemma phase_run: "gameState s \<noteq> [] \<Longrightarrow> gameState (run s es) \<noteq> []"
proof (induction es arbitrary: s)
  case Nil
  then show ?case by simp
next
  case (Cons e es)
  then show ?case by (cases e) (simp_all add: phase_click phase_expire)
qed

lemma flipped_restored:
  "length (flippedCardsOf (map (restoreCard \<circ> serializableCard) cs)) = length (flippedCardsOf cs)"
  by (induction cs) (simp_all add: restore_serializable)

lemma coherent_reload:
  assumes "coherent s" and "\<not> isChecking s" and "saved s" and "gameState s \<noteq> []"
  shows "coherent (reload sort_random s)"
proof -
  have r: "reload sort_random s = mount sort_random (sessionStorage (saveEffect s))"
    using assms(3) by (simp add: reload_def saved_def)
  note f = save_load_fields [OF assms(4), of sort_random]
  have l: "length (flippedCardsOf (cards s)) < 2"
    using assms(1,2) by (cases rule: coherent_cases) simp_all
  have cs: "cards (mount sort_random (sessionStorage (saveEffect s))) =
      map (restoreCard \<circ> serializableCard) (cards s)"
    using f by simp
  have "length (flippedCardsOf (cards (mount sort_random (sessionStorage (saveEffect s))))) < 2"
    unfolding cs flipped_restored by (rule l)
  then show ?thesis
    unfolding r using f by (simp add: coherent_def)
qed

text \<open>
  A game reloaded while no pair awaits its resolution resumes in orderly play, and so every
  sequence of clicks and timer expiries on the new page keeps the properties of play on one
  page (\<open>coherent_summary\<close>).
\<close>

lemma play_resumed:
  assumes "timers s0 = []"
      and "mset (sort_random (forEach_push CARD_CONFIGS 0 [])) = mset (forEach_push CARD_CONFIGS 0 [])"
      and "\<not> isChecking (run (start sort_random s0) es)"
  shows "coherent (run (reload sort_random' (run (start sort_random s0) es)) es')"
proof -
  let ?s = "run (start sort_random s0) es"
  have c: "coherent ?s"
    by (rule coherent_run [OF coherent_start [of s0 sort_random, OF assms(1,2)]])
  have sv: "saved ?s" by (rule saved_run [OF saved_start])
  have "gameState (start sort_random s0) \<noteq> []" by (simp add: start_fields)
  then have g: "gameState ?s \<noteq> []" by (rule phase_run)
  show ?thesis by (rule coherent_run [OF coherent_reload [OF c assms(3) sv g]])
qed

text \<open>
  C4, for the play sequence that starts a game, clicks card 11 at index 0 and card 9 at
  index 2, reloads the page before the timer expires, and clicks card 7 at index 4. Before
  the reload \<open>isChecking\<close> is set and one callback is pending. After it the two cards are
  still face up and unmatched, but \<open>isChecking\<close> is clear and no callback is pending, so
  the expiry of the timer changes nothing: the pair is never resolved. The next click is
  accepted and leaves three cards face up and unmatched, with \<open>isChecking\<close> still clear
  and no callback. The load effect does not read \<^verbatim>\<open>memory_is_checking\<close>, and the callback
  of the old page is lost with the page.
\<close>

theorem reload_loses_resolution:
  "isChecking (run started [Click 0, Click 2])
   \<and> length (timers (run started [Click 0, Click 2])) = 1
   \<and> length (flippedCardsOf (cards (reload rev (run started [Click 0, Click 2])))) = 2
   \<and> isChecking (reload rev (run started [Click 0, Click 2])) = False
   \<and> timers (reload rev (run started [Click 0, Click 2])) = []
   \<and> expire (reload rev (run started [Click 0, Click 2])) = reload rev (run started [Click 0, Click 2])
   \<and> length (flippedCardsOf (cards (click (reload rev (run started [Click 0, Click 2])) 4))) = 3
   \<and> isChecking (click (reload rev (run started [Click 0, Click 2])) 4) = False
   \<and> timers (click (reload rev (run started [Click 0, Click 2])) 4) = []"
  by code_simp

end
